theory Spec2Isabelle
  imports Main
begin

section \<open>The module runtime of bbot (bbot/modules/base.py, class BaseModule)\<close>

text \<open>
  The theory embeds the methods of \<^verbatim>\<open>BaseModule\<close> as functions on a record of the
  module's attributes. A method that mutates \<^verbatim>\<open>self\<close> takes the record and returns the
  updated one. Calls that leave the class (the logger, the internal thread pool, the
  scan's catch harness, the statistics collector, the emission semaphore) are recorded, in
  call order, in list-valued fields of the record. A Python name with a leading
  underscore is written with the prefix \<open>us_\<close> (\<^verbatim>\<open>_cleanup\<close> is \<open>us_cleanup\<close>).
\<close>

subsection \<open>Exceptions\<close>

text \<open>
  Every handler of the class is \<^verbatim>\<open>except Exception\<close>, which catches the instances of
  \<^verbatim>\<open>Exception\<close> and lets \<^verbatim>\<open>KeyboardInterrupt\<close> and \<^verbatim>\<open>SystemExit\<close> (instances of
  \<^verbatim>\<open>BaseException\<close> only) through. \<open>OtherException\<close> stands for any further subclass
  of \<^verbatim>\<open>Exception\<close>.
\<close>

datatype exn_class =
  WordlistError | ValidationError | AttributeError | KeyError | TypeError | OtherException
  | KeyboardInterrupt | SystemExit

datatype exn = Exn exn_class string

fun exn_class_of :: "exn \<Rightarrow> exn_class" where
  "exn_class_of (Exn c msg) = c"

text \<open>\<^verbatim>\<open>f"{e}"\<close>: the message of the exception.\<close>

fun exn_str :: "exn \<Rightarrow> string" where
  "exn_str (Exn c msg) = msg"

fun is_Exception :: "exn \<Rightarrow> bool" where
  "is_Exception (Exn c msg) = (c \<noteq> KeyboardInterrupt \<and> c \<noteq> SystemExit)"

fun is_WordlistError :: "exn \<Rightarrow> bool" where
  "is_WordlistError (Exn c msg) = (c = WordlistError)"

subsection \<open>Events, queue items, the queue handle\<close>

text \<open>
  The event class is not part of this file of the repository; the record holds the
  attributes that \<^verbatim>\<open>BaseModule\<close> reads: \<^verbatim>\<open>event.type\<close>,
  \<^verbatim>\<open>getattr(event.source, "type", "")\<close> (\<open>None\<close> when the source has no such attribute),
  \<^verbatim>\<open>event.tags\<close>, \<^verbatim>\<open>event.scope_distance\<close>, \<^verbatim>\<open>event.module\<close> (\<open>None\<close> when the
  attribute is unset, otherwise the \<^verbatim>\<open>str\<close> of the producing module, its name) and
  \<^verbatim>\<open>str(event)\<close>.
\<close>

record event =
  etype :: string
  source_type :: "string option"
  tags :: "string set"
  scope_distance :: int
  emodule :: "string option"
  estr :: string

text \<open>What travels on the incoming queue: a Python \<^verbatim>\<open>str\<close> or an event object.\<close>

datatype item = Str string | Ev event

text \<open>
  \<^verbatim>\<open>self._event_queue\<close> is \<^verbatim>\<open>None\<close> until first use, a \<^verbatim>\<open>queue.SimpleQueue\<close> (the head
  of the list is the next item out), or \<^verbatim>\<open>False\<close> once the module is in its error state.
\<close>

datatype qhandle = QNone | QFalse | Queue "item list"

subsection \<open>What the module hands to its collaborators\<close>

datatype level = DEBUG | WARNING | ERROR

text \<open>A log call with its text; \<open>Traceback\<close> is \<^verbatim>\<open>self.debug(traceback.format_exc())\<close>.\<close>

datatype log_entry = Log level string | Traceback

datatype callback = Finish | Report

text \<open>
  A task given to \<^verbatim>\<open>self._internal_thread_pool.submit_task(self.catch, ...)\<close>: the wrapped
  method, its positional arguments and the \<^verbatim>\<open>_on_finish_callback\<close> keyword.
\<close>

datatype task =
  HandleBatch "event list" "callback option"
  | HandleEvent event
  | Callback callback

text \<open>
  An entry of \<^verbatim>\<open>cleanup_callbacks\<close> is any object; \<^verbatim>\<open>callable(callback)\<close> decides whether
  it is run. \<open>UserCleanup\<close> is the bound method \<^verbatim>\<open>self.cleanup\<close>.
\<close>

datatype pyobj = UserCleanup | Callable string | NotCallable string

fun callable :: "pyobj \<Rightarrow> bool" where
  "callable UserCleanup = True"
| "callable (Callable n) = True"
| "callable (NotCallable n) = False"

text \<open>
  The calls of \<^verbatim>\<open>self.catch\<close> that the module makes on its own thread:
  \<^verbatim>\<open>self.catch(callback, _force=...)\<close> and \<^verbatim>\<open>self.catch(self.handle_event, e)\<close>.
\<close>

datatype catch_call = Catch pyobj bool | CatchEvent event

datatype gate_op = Acquire | Release

subsection \<open>The module\<close>

text \<open>
  What the user's \<^verbatim>\<open>setup()\<close> returns: any object. \<open>SBool\<close> and \<open>SNone\<close> are the keys of
  \<^verbatim>\<open>status_codes\<close>; \<open>SOther t\<close> is any other object, for which the lookup
  \<^verbatim>\<open>status_codes[status]\<close> raises a \<^verbatim>\<open>KeyError\<close> of text \<open>t\<close>. \<open>RetPair\<close> is a tuple of
  length two, with \<^verbatim>\<open>str(msg)\<close> for its second component.
\<close>

datatype status = SBool bool | SNone | SOther string

datatype setup_outcome = Ret status | RetPair status string | Raise exn

record module =
  us_name :: string
  us_type :: string
  watched_events :: "string list"
  us_watched_events :: "string set option"
  target_only :: bool
  in_scope_only :: bool
  scope_distance_modifier :: "int option"
  batch_size :: int
  scope_search_distance :: int
  user_filter_event :: "event \<Rightarrow> exn + bool"
  user_setup :: setup_outcome
  errored :: bool
  us_event_queue :: qhandle
  us_batch_idle :: int
  cleanup_callbacks :: "pyobj list"
  us_cleanedup :: bool
  log :: "log_entry list"
  internal_pool :: "task list"
  catch_calls :: "catch_call list"
  stats_consumed :: "event list"
  gate :: "gate_op list"
  manager_emitted :: "event list"

text \<open>
  \<open>scope_search_distance\<close> is \<^verbatim>\<open>self.scan.scope_search_distance\<close>; \<open>user_filter_event\<close> and
  \<open>user_setup\<close> are the overridable methods \<^verbatim>\<open>filter_event\<close> and \<^verbatim>\<open>setup\<close>, as what they
  return or raise. The last six fields record the calls that leave the class.
\<close>

definition name :: "module \<Rightarrow> string" where
  "name m = us_name m"

definition debug :: "string \<Rightarrow> module \<Rightarrow> module" where
  "debug s m = m\<lparr>log := log m @ [Log DEBUG s]\<rparr>"

definition warning :: "string \<Rightarrow> module \<Rightarrow> module" where
  "warning s m = m\<lparr>log := log m @ [Log WARNING s]\<rparr>"

definition error :: "string \<Rightarrow> module \<Rightarrow> module" where
  "error s m = m\<lparr>log := log m @ [Log ERROR s]\<rparr>"

definition debug_traceback :: "module \<Rightarrow> module" where
  "debug_traceback m = m\<lparr>log := log m @ [Traceback]\<rparr>"

text \<open>
  The property \<^verbatim>\<open>event_queue\<close> creates the queue on first access and returns the handle;
  the handle it returns is the field \<open>us_event_queue\<close> of the state it leaves.
\<close>

definition event_queue :: "module \<Rightarrow> module" where
  "event_queue m =
     (case us_event_queue m of
        QNone \<Rightarrow> m\<lparr>us_event_queue := Queue []\<rparr>
      | _ \<Rightarrow> m)"

subsection \<open>The batch collector\<close>

text \<open>
  The loop of \<^verbatim>\<open>events_waiting\<close> on a live queue: \<open>left\<close>, the queue, the events so far
  and the two flags. \<^verbatim>\<open>get_nowait\<close> on the empty queue raises \<^verbatim>\<open>queue.Empty\<close>, which
  leaves the loop.
\<close>

fun drain :: "int \<Rightarrow> item list \<Rightarrow> event list \<Rightarrow> bool \<Rightarrow> bool
    \<Rightarrow> (event list \<times> bool \<times> bool) \<times> item list" where
  "drain left [] events finish report = ((events, finish, report), [])"
| "drain left (x # q) events finish report =
     (if left > 0 then
        (case x of
           Str s \<Rightarrow>
             if s = ''FINISHED'' then drain left q events True report
             else if s = ''REPORT'' then drain left q events finish True
             else drain left q events finish report
         | Ev e \<Rightarrow> drain (left - 1) q (events @ [e]) finish report)
      else ((events, finish, report), x # q))"

definition events_waiting :: "module \<Rightarrow> (event list \<times> bool \<times> bool) \<times> module" where
  "events_waiting m =
     (if batch_size m > 0 then
        (let m1 = event_queue m in
         case us_event_queue m1 of
           Queue q \<Rightarrow>
             (let (r, q') = drain (batch_size m1) q [] False False
              in (r, m1\<lparr>us_event_queue := Queue q'\<rparr>))
         | _ \<Rightarrow> (([], False, False), m1))
      else (([], False, False), m))"

text \<open>The property \<^verbatim>\<open>num_queued_events\<close>.\<close>

definition num_queued_events :: "module \<Rightarrow> int \<times> module" where
  "num_queued_events m =
     (let m1 = event_queue m in
      case us_event_queue m1 of
        Queue q \<Rightarrow> (int (length q), m1)
      | _ \<Rightarrow> (0, m1))"

subsection \<open>Text of numbers\<close>

text \<open>\<^verbatim>\<open>str\<close> of an integer, and the format \<^verbatim>\<open>{n:,}\<close> of a length.\<close>

fun str_nat :: "nat \<Rightarrow> string" where
  "str_nat n =
     (if n < 10 then [''0123456789'' ! n]
      else str_nat (n div 10) @ [''0123456789'' ! (n mod 10)])"

declare str_nat.simps [simp del]

definition str_int :: "int \<Rightarrow> string" where
  "str_int i = (if i < 0 then ''-'' @ str_nat (nat (- i)) else str_nat (nat i))"

fun group3 :: "string \<Rightarrow> string" where
  "group3 (a # b # c # d # r) = a # b # c # CHR '','' # group3 (d # r)"
| "group3 r = r"

definition fmt_thousands :: "nat \<Rightarrow> string" where
  "fmt_thousands n = rev (group3 (rev (str_nat n)))"

definition dquote :: string where
  "dquote = [CHR 0x22]"

subsection \<open>The handle-batch step\<close>

definition us_handle_batch :: "bool \<Rightarrow> module \<Rightarrow> bool \<times> module" where
  "us_handle_batch force m =
     (let (n, m1) = num_queued_events m in
      if n > 0 \<and> (force \<or> n \<ge> batch_size m1) then
        (let m2 = m1\<lparr>us_batch_idle := 0\<rparr>;
             ((events, finish, report), m3) = events_waiting m2;
             on_finish_callback =
               (if finish then Some Finish else if report then Some Report else None)
         in if events \<noteq> [] then
              (let m4 = debug (''Handling batch of '' @ fmt_thousands (length events)
                               @ '' events'') m3
               in (True, m4\<lparr>internal_pool :=
                     internal_pool m4 @ [HandleBatch events on_finish_callback]\<rparr>))
            else (False, m3))
      else (False, m1))"

text \<open>
  What the worker loop does with an item it took off the queue when \<^verbatim>\<open>batch_size\<close> is 1
  (the body of \<^verbatim>\<open>_worker\<close> after \<^verbatim>\<open>event_queue.get\<close>).
\<close>

definition item_str :: "item \<Rightarrow> string" where
  "item_str x = (case x of Str s \<Rightarrow> s | Ev e \<Rightarrow> estr e)"

definition worker_dispatch :: "item \<Rightarrow> module \<Rightarrow> module" where
  "worker_dispatch x m =
     (let m1 = debug (''Got '' @ item_str x @ '' from ''
                      @ (case x of Str s \<Rightarrow> s
                         | Ev e \<Rightarrow> (case emodule e of None \<Rightarrow> ''None'' | Some n \<Rightarrow> n))) m
      in case x of
           Str s \<Rightarrow>
             if s = ''FINISHED'' then m1\<lparr>internal_pool := internal_pool m1 @ [Callback Finish]\<rparr>
             else if s = ''REPORT'' then m1\<lparr>internal_pool := internal_pool m1 @ [Callback Report]\<rparr>
             else m1
         | Ev e \<Rightarrow>
             if us_type m1 = ''output'' then m1\<lparr>catch_calls := catch_calls m1 @ [CatchEvent e]\<rparr>
             else m1\<lparr>internal_pool := internal_pool m1 @ [HandleEvent e]\<rparr>)"

subsection \<open>The acceptance filter\<close>

definition get_watched_events :: "module \<Rightarrow> string set \<times> module" where
  "get_watched_events m =
     (case us_watched_events m of
        None \<Rightarrow> (set (watched_events m), m\<lparr>us_watched_events := Some (set (watched_events m))\<rparr>)
      | Some w \<Rightarrow> (w, m))"

text \<open>
  The property \<^verbatim>\<open>max_scope_distance\<close>. With the modifier \<^verbatim>\<open>None\<close> and neither flag set, the
  addition raises a \<^verbatim>\<open>TypeError\<close>.
\<close>

definition max_scope_distance :: "module \<Rightarrow> exn + int" where
  "max_scope_distance m =
     (if in_scope_only m \<or> target_only m then Inr 0
      else case scope_distance_modifier m of
             None \<Rightarrow> Inl (Exn TypeError ''unsupported operand type(s) for +'')
           | Some k \<Rightarrow> Inr (max 0 (scope_search_distance m + k)))"

definition us_event_precheck :: "module \<Rightarrow> item \<Rightarrow> (bool \<times> string) \<times> module" where
  "us_event_precheck m x =
     (case x of
        Str s \<Rightarrow>
          if s = ''FINISHED'' \<or> s = ''REPORT'' then ((True, ''''), m)
          else ((False, ''string value '' @ dquote @ s @ dquote @ '' is invalid''), m)
      | Ev e \<Rightarrow>
          (let (w, m1) = get_watched_events m in
           if \<not> (''*'' \<in> w \<or> etype e \<in> w) then
             ((False, ''its type is not in watched_events''), m1)
           else if target_only m1 \<and> ''target'' \<notin> tags e then
             ((False, ''it did not meet target_only filter criteria''), m1)
           else
             (let source_is_range =
                    ((case source_type e of None \<Rightarrow> '''' | Some t \<Rightarrow> t) = ''IP_RANGE'')
              in if source_is_range \<and> etype e = ''IP_ADDRESS''
                    \<and> (case emodule e of None \<Rightarrow> ''None'' | Some n \<Rightarrow> n) = ''speculate''
                    \<and> name m1 \<noteq> ''speculate''
                    \<and> (''IP_RANGE'' \<in> set (watched_events m1)
                       \<and> ''IP_ADDRESS'' \<in> set (watched_events m1))
                 then ((False, ''module consumes IP ranges directly''), m1)
                 else ((True, ''''), m1))))"

text \<open>
  The custom filtering at the end of \<^verbatim>\<open>_event_postcheck\<close>: the \<^verbatim>\<open>try\<close> around the user's
  \<^verbatim>\<open>filter_event\<close>.
\<close>

definition custom_filtering :: "module \<Rightarrow> event \<Rightarrow> (exn + bool \<times> string) \<times> module" where
  "custom_filtering m e =
     (case user_filter_event m e of
        Inr b \<Rightarrow>
          if \<not> b then (Inr (False, estr e @ '' did not meet custom filter criteria''), m)
          else (Inr (True, ''''), m)
      | Inl x \<Rightarrow>
          if is_Exception x then
            (Inr (True, ''''),
             debug_traceback
               (error (''Error in filter_event('' @ estr e @ ''): '' @ exn_str x) m))
          else (Inl x, m))"

definition exceeds_reason :: "module \<Rightarrow> event \<Rightarrow> int \<Rightarrow> int \<Rightarrow> string" where
  "exceeds_reason m e k msd =
     ''its scope_distance ('' @ str_int (scope_distance e)
       @ '') exceeds the maximum allowed by the scan ('' @ str_int (scope_search_distance m)
       @ '') + the module ('' @ str_int k @ '') == '' @ str_int msd"

definition us_event_postcheck :: "module \<Rightarrow> item \<Rightarrow> (exn + bool \<times> string) \<times> module" where
  "us_event_postcheck m x =
     (case x of
        Str s \<Rightarrow> (Inr (True, ''''), m)
      | Ev e \<Rightarrow>
          if in_scope_only m \<and> scope_distance e > 0 then
            (Inr (False, ''it did not meet in_scope_only filter criteria''), m)
          else
            (case scope_distance_modifier m of
               None \<Rightarrow> custom_filtering m e
             | Some k \<Rightarrow>
                 if scope_distance e < 0 then
                   (Inr (False, ''its scope_distance ('' @ str_int (scope_distance e)
                                  @ '') is invalid.''), m)
                 else
                   (case max_scope_distance m of
                      Inl x \<Rightarrow> (Inl x, m)
                    | Inr msd \<Rightarrow>
                        if scope_distance e > msd then
                          (Inr (False, exceeds_reason m e k msd), m)
                        else custom_filtering m e)))"


subsection \<open>Cleanup, the error state, queueing\<close>

definition catch_force :: "pyobj \<Rightarrow> module \<Rightarrow> module" where
  "catch_force callback m = m\<lparr>catch_calls := catch_calls m @ [Catch callback True]\<rparr>"

text \<open>
  \<^verbatim>\<open>_cleanup\<close>: the list \<^verbatim>\<open>[self.cleanup] + self.cleanup_callbacks\<close> is built once, before
  the first callback runs.
\<close>

definition us_cleanup :: "module \<Rightarrow> module" where
  "us_cleanup m =
     (if \<not> us_cleanedup m then
        (let m1 = m\<lparr>us_cleanedup := True\<rparr>
         in foldl (\<lambda>s callback. if callable callback then catch_force callback s else s)
              m1 (UserCleanup # cleanup_callbacks m1))
      else m)"

text \<open>The loop \<^verbatim>\<open>while 1: self.event_queue.get_nowait()\<close>, left by \<^verbatim>\<open>queue.Empty\<close>.\<close>

fun get_all_nowait :: "item list \<Rightarrow> item list" where
  "get_all_nowait [] = []"
| "get_all_nowait (x # q) = get_all_nowait q"

text \<open>
  The block under \<^verbatim>\<open>if self.event_queue:\<close> up to the end of the \<^verbatim>\<open>with\<close> statement, on a
  queue that holds \<open>q\<close>: the debug line, then the loop.
\<close>

definition emptied :: "item list \<Rightarrow> module \<Rightarrow> module" where
  "emptied q m =
     (let m5 = debug ''Emptying event_queue'' m
      in m5\<lparr>us_event_queue := Queue (get_all_nowait q)\<rparr>)"

definition set_error_state :: "string option \<Rightarrow> module \<Rightarrow> module" where
  "set_error_state message m =
     (let m1 = (case message of None \<Rightarrow> m | Some s \<Rightarrow> error s m) in
      if \<not> errored m1 then
        (let m2 = debug (''Setting error state for module '' @ name m1) m1;
             m3 = m2\<lparr>errored := True\<rparr>;
             m4 = event_queue m3
         in case us_event_queue m4 of
              Queue q \<Rightarrow>
                (let m6 = emptied q m4
                 in m6\<lparr>us_event_queue := QFalse\<rparr>)
            | _ \<Rightarrow> m4)
      else m1)"


subsection \<open>Setup\<close>

text \<open>
  The \<^verbatim>\<open>except Exception\<close> branch of \<^verbatim>\<open>_setup\<close>, entered with the value \<open>status\<close> has at
  the raise; an exception that is no \<^verbatim>\<open>Exception\<close> leaves the method.
\<close>

definition setup_except :: "exn \<Rightarrow> status \<Rightarrow> module \<Rightarrow> (exn + status \<times> string) \<times> module" where
  "setup_except e st m =
     (if is_Exception e then
        (let m1 = set_error_state None m;
             st1 = (if is_WordlistError e then SNone else st);
             msg = exn_str e;
             m2 = debug_traceback m1
         in (Inr (st1, msg), m2))
      else (Inl e, m))"

definition us_setup :: "module \<Rightarrow> (exn + status \<times> string) \<times> module" where
  "us_setup m =
     (let m1 = debug (''Setting up module '' @ name m) m;
          finished = debug (''Finished setting up module '' @ name m)
      in case user_setup m1 of
           Raise e \<Rightarrow> setup_except e (SBool False) m1
         | RetPair st msg \<Rightarrow> (Inr (st, msg), finished m1)
         | Ret st \<Rightarrow>
             (case st of
                SBool False \<Rightarrow> (Inr (st, ''hard-fail''), finished m1)
              | SNone \<Rightarrow> (Inr (st, ''soft-fail''), finished m1)
              | SBool True \<Rightarrow> (Inr (st, ''success''), finished m1)
              | SOther t \<Rightarrow> setup_except (Exn KeyError t) st m1))"

subsection \<open>Emission\<close>

text \<open>
  What \<^verbatim>\<open>emit_event\<close> meets outside the module during one call: the successive values of
  \<^verbatim>\<open>self.scan.stopping\<close> (index 0 is the read at entry, index \<open>k + 1\<close> the read that opens
  round \<open>k\<close> of the loop), whether \<^verbatim>\<open>event.acquire_semaphore(timeout=0.1)\<close> succeeds in
  round \<open>k\<close>, what \<^verbatim>\<open>self.scan.make_event\<close> returns or raises, and what
  \<^verbatim>\<open>self.scan.manager.emit_event\<close> raises, if anything.
\<close>

record world =
  stopping :: "nat \<Rightarrow> bool"
  acquire_semaphore :: "nat \<Rightarrow> bool"
  scan_make_event :: "exn + event"
  manager_emit_event :: "exn option"

definition make_event :: "world \<Rightarrow> bool \<Rightarrow> module \<Rightarrow> (exn + event option) \<times> module" where
  "make_event w raise_error m =
     (case scan_make_event w of
        Inl e \<Rightarrow>
          if exn_class_of e = ValidationError \<and> \<not> raise_error then
            (Inr None, warning (exn_str e) m)
          else (Inl e, m)
      | Inr event \<Rightarrow>
          if emodule event = None then (Inr (Some (event\<lparr>emodule := Some (name m)\<rparr>)), m)
          else (Inr (Some event), m))"

text \<open>
  The loop \<^verbatim>\<open>while not self.scan.stopping\<close> up to the round that leaves it: \<open>Some False\<close>
  when the scan is stopping at the head of a round, \<open>Some True\<close> when a permit was
  acquired, \<open>None\<close> when neither ever happens.
\<close>

partial_function (option) acquire_loop :: "world \<Rightarrow> nat \<Rightarrow> bool option" where
  "acquire_loop w k =
     (if stopping w (Suc k) then Some False
      else if acquire_semaphore w k then Some True
      else acquire_loop w (Suc k))"

definition emit_event :: "world \<Rightarrow> bool \<Rightarrow> module \<Rightarrow> (exn option \<times> module) option" where
  "emit_event w raise_error m =
     (if stopping w 0 then Some (None, m)
      else
        (case make_event w raise_error m of
           (Inl e, m1) \<Rightarrow> Some (Some e, m1)
         | (Inr None, m1) \<Rightarrow> Some (None, m1)
         | (Inr (Some event), m1) \<Rightarrow>
             (case acquire_loop w 0 of
                None \<Rightarrow> None
              | Some False \<Rightarrow> Some (None, m1)
              | Some True \<Rightarrow>
                  (let m2 = m1\<lparr>gate := gate m1 @ [Acquire]\<rparr>;
                       m3 = m2\<lparr>manager_emitted := manager_emitted m2 @ [event]\<rparr>
                   in case manager_emit_event w of
                        None \<Rightarrow> Some (None, m3)
                      | Some e \<Rightarrow>
                          if is_Exception e then
                            (let m4 = m3\<lparr>gate := gate m3 @ [Release]\<rparr>;
                                 m5 = error (''Unexpected error in '' @ name m4
                                             @ ''.emit_event()'') m4
                             in Some (None, debug_traceback m5))
                          else Some (Some e, m3)))))"

subsection \<open>A new module, and sample data\<close>

text \<open>
  The class attributes of \<^verbatim>\<open>BaseModule\<close> and the assignments of \<^verbatim>\<open>__init__\<close>, for a scan
  whose \<^verbatim>\<open>scope_search_distance\<close> is \<open>d\<close>; the user methods are the defaults of the class
  (\<^verbatim>\<open>filter_event\<close> and \<^verbatim>\<open>setup\<close> return \<^verbatim>\<open>True\<close>).
\<close>

definition init :: "int \<Rightarrow> module" where
  "init d =
     \<lparr>us_name = ''base'', us_type = ''scan'', watched_events = [], us_watched_events = None,
      target_only = False, in_scope_only = False, scope_distance_modifier = Some (- 1),
      batch_size = 1, scope_search_distance = d, user_filter_event = (\<lambda>e. Inr True),
      user_setup = Ret (SBool True), errored = False, us_event_queue = QNone,
      us_batch_idle = 0, cleanup_callbacks = [], us_cleanedup = False, log = [],
      internal_pool = [], catch_calls = [], stats_consumed = [], gate = [],
      manager_emitted = []\<rparr>"

text \<open>An event of type \<open>t\<close> at scope distance \<open>sd\<close>, made by module \<open>p\<close>.\<close>

definition sample_event :: "string \<Rightarrow> int \<Rightarrow> string \<Rightarrow> event" where
  "sample_event t sd p =
     \<lparr>etype = t, source_type = None, tags = {}, scope_distance = sd, emodule = Some p,
      estr = t\<rparr>"

subsection \<open>Notions used to state the properties\<close>

text \<open>The events among a list of queue items, in order.\<close>

definition events_of :: "item list \<Rightarrow> event list" where
  "events_of q = concat (map (\<lambda>x. case x of Ev e \<Rightarrow> [e] | Str s \<Rightarrow> []) q)"

text \<open>The items waiting on the incoming queue; none when there is no live queue.\<close>

definition queue_items :: "module \<Rightarrow> item list" where
  "queue_items m = (case us_event_queue m of Queue q \<Rightarrow> q | _ \<Rightarrow> [])"

text \<open>Whether the user's \<^verbatim>\<open>filter_event\<close> lets the event through \<^verbatim>\<open>_event_postcheck\<close>.\<close>

definition filter_passes :: "module \<Rightarrow> event \<Rightarrow> bool" where
  "filter_passes m e = (case user_filter_event m e of Inr b \<Rightarrow> b | Inl x \<Rightarrow> is_Exception x)"

text \<open>
  Whether \<^verbatim>\<open>_event_postcheck\<close> gets as far as its custom filtering: neither the
  \<^verbatim>\<open>in_scope_only\<close> test nor the scope-distance tests returned.
\<close>

definition reaches_custom_filtering :: "module \<Rightarrow> event \<Rightarrow> bool" where
  "reaches_custom_filtering m e =
     (\<not> (in_scope_only m \<and> scope_distance e > 0)
      \<and> (case scope_distance_modifier m of
           None \<Rightarrow> True
         | Some k \<Rightarrow>
             0 \<le> scope_distance e
             \<and> (case max_scope_distance m of Inl x \<Rightarrow> False | Inr msd \<Rightarrow> scope_distance e \<le> msd)))"




text \<open>The calls of the catch harness that \<^verbatim>\<open>_cleanup\<close> makes for a list of callbacks.\<close>

definition forced_calls :: "pyobj list \<Rightarrow> catch_call list" where
  "forced_calls callbacks = map (\<lambda>c. Catch c True) (filter callable callbacks)"

text \<open>Whether a result of the filter accepts the event.\<close>

definition accepted :: "exn + bool \<times> string \<Rightarrow> bool" where
  "accepted r = (case r of Inr (acceptable, reason) \<Rightarrow> acceptable | Inl x \<Rightarrow> False)"

text \<open>
  The module as \<^verbatim>\<open>set_error_state\<close> has it when it reaches \<^verbatim>\<open>if self.event_queue:\<close>, on a
  module that was not in its error state: the message logged, \<^verbatim>\<open>errored\<close> set, the queue
  looked up.
\<close>

definition marked_errored :: "string option \<Rightarrow> module \<Rightarrow> module" where
  "marked_errored message m =
     event_queue
       ((debug (''Setting error state for module '' @ name m)
           (case message of None \<Rightarrow> m | Some s \<Rightarrow> error s m))\<lparr>errored := True\<rparr>)"


text \<open>
  The five conditions of the rule on addresses speculated from a range, as
  \<^verbatim>\<open>_event_precheck\<close> tests them.
\<close>

definition speculated_from_range :: "module \<Rightarrow> event \<Rightarrow> bool" where
  "speculated_from_range m e =
     (source_type e = Some ''IP_RANGE'' \<and> etype e = ''IP_ADDRESS''
      \<and> emodule e = Some ''speculate'' \<and> name m \<noteq> ''speculate''
      \<and> ''IP_RANGE'' \<in> set (watched_events m) \<and> ''IP_ADDRESS'' \<in> set (watched_events m))"

subsection \<open>Modules and events the properties are tried on\<close>

text \<open>
  Three events with a \<^verbatim>\<open>FINISHED\<close> token after the first and a \<^verbatim>\<open>REPORT\<close> token after
  the second, and \<^verbatim>\<open>batch_size\<close> 2.
\<close>

definition batch_module :: module where
  "batch_module =
     (init 1)\<lparr>batch_size := 2,
               us_event_queue :=
                 Queue [Ev (sample_event ''A'' 0 ''p''), Str ''FINISHED'',
                        Ev (sample_event ''B'' 0 ''p''), Str ''REPORT'',
                        Ev (sample_event ''C'' 0 ''p'')]\<rparr>"

text \<open>A batch module whose queue holds a \<^verbatim>\<open>FINISHED\<close> token and nothing else.\<close>

definition lone_token_module :: module where
  "lone_token_module = (init 1)\<lparr>batch_size := 2, us_event_queue := Queue [Str ''FINISHED'']\<rparr>"

definition cleanup_module :: module where
  "cleanup_module =
     (init 1)\<lparr>cleanup_callbacks := [Callable ''a'', NotCallable ''x'', Callable ''b'']\<rparr>"

text \<open>A module with one callback and two events waiting.\<close>

definition busy_module :: module where
  "busy_module =
     (init 1)\<lparr>watched_events := [''A''], cleanup_callbacks := [Callable ''a''],
               us_event_queue := Queue [Ev (sample_event ''A'' 0 ''p''),
                                        Ev (sample_event ''A'' 0 ''q'')]\<rparr>"

text \<open>Scenario S3 of the specification: modifier 0 on a scan of search distance 1.\<close>

definition s3_module :: module where
  "s3_module = (init 1)\<lparr>watched_events := [''A''], scope_distance_modifier := Some 0\<rparr>"

text \<open>A module whose \<^verbatim>\<open>filter_event\<close> raises: an \<^verbatim>\<open>Exception\<close>, and a \<^verbatim>\<open>KeyboardInterrupt\<close>.\<close>

definition raising_filter_module :: module where
  "raising_filter_module =
     (init 1)\<lparr>user_filter_event := (\<lambda>e. Inl (Exn OtherException ''bad filter''))\<rparr>"

definition interrupted_filter_module :: module where
  "interrupted_filter_module =
     (init 1)\<lparr>user_filter_event := (\<lambda>e. Inl (Exn KeyboardInterrupt ''''))\<rparr>"

text \<open>
  A port scanner that watches ranges and addresses, and an address that the module
  \<^verbatim>\<open>speculate\<close> made from a range.
\<close>

definition scanner_module :: module where
  "scanner_module =
     (init 1)\<lparr>us_name := ''portscan'', watched_events := [''IP_RANGE'', ''IP_ADDRESS'']\<rparr>"

definition speculated_address :: event where
  "speculated_address =
     (sample_event ''IP_ADDRESS'' 0 ''speculate'')\<lparr>source_type := Some ''IP_RANGE''\<rparr>"

text \<open>
  A scan that is not stopping, whose gate has a free permit from the third attempt on, and
  whose event factory makes the event \<open>ev\<close>; \<open>r\<close> is what the orchestrator's
  \<^verbatim>\<open>emit_event\<close> raises.
\<close>

definition busy_gate_world :: "event \<Rightarrow> exn option \<Rightarrow> world" where
  "busy_gate_world ev r =
     \<lparr>stopping = (\<lambda>k. False), acquire_semaphore = (\<lambda>k. 2 \<le> k),
      scan_make_event = Inr ev, manager_emit_event = r\<rparr>"

text \<open>The event as \<^verbatim>\<open>make_event\<close> hands it on: with the module as producer if it had none.\<close>

definition made_by :: "module \<Rightarrow> event \<Rightarrow> event" where
  "made_by m ev = (if emodule ev = None then ev\<lparr>emodule := Some (name m)\<rparr> else ev)"

text \<open>Whether \<^verbatim>\<open>setup()\<close> raises something that no \<^verbatim>\<open>except Exception\<close> catches.\<close>

definition setup_escapes :: "module \<Rightarrow> bool" where
  "setup_escapes m = (case user_setup m of Raise x \<Rightarrow> \<not> is_Exception x | _ \<Rightarrow> False)"

section \<open>Properties\<close>

subsection \<open>The batch collector\<close>

lemma events_of_simps [simp]:
  "events_of [] = []"
  "events_of (Ev e # q) = e # events_of q"
  "events_of (Str s # q) = events_of q"
  "events_of (a @ b) = events_of a @ events_of b"
  by (simp_all add: events_of_def)

text \<open>
  What the loop of \<^verbatim>\<open>events_waiting\<close> computes: it takes a prefix off the queue, appends the
  events of the prefix, which are the first \<open>left\<close> events of the queue, and raises the flag
  of each token the prefix holds.
\<close>

lemma drain_spec:
  "drain left q evs f r = ((evs', f', r'), rest) \<Longrightarrow>
   \<exists>consumed. q = consumed @ rest
     \<and> evs' = evs @ events_of consumed
     \<and> events_of consumed = take (nat left) (events_of q)
     \<and> f' = (f \<or> Str ''FINISHED'' \<in> set consumed)
     \<and> r' = (r \<or> Str ''REPORT'' \<in> set consumed)"
proof (induction left q evs f r arbitrary: evs' f' r' rest rule: drain.induct)
  case (1 left events finish report)
  then show ?case by simp
next
  case (2 left x q events finish report)
  show ?case
  proof (cases "left > 0")
    case False
    with 2(5) show ?thesis by simp
  next
    case True
    show ?thesis
    proof (cases x)
      case (Str s)
      consider (fin) "s = ''FINISHED''" | (rep) "s \<noteq> ''FINISHED''" "s = ''REPORT''"
        | (other) "s \<noteq> ''FINISHED''" "s \<noteq> ''REPORT''" by blast
      then show ?thesis
      proof cases
        case fin
        with True Str 2(5) have d: "drain left q events True report = ((evs', f', r'), rest)"
          by simp
        from 2(1)[OF True Str fin d] obtain c where c: "q = c @ rest" "evs' = events @ events_of c"
          "events_of c = take (nat left) (events_of q)"
          "f' = (True \<or> Str ''FINISHED'' \<in> set c)" "r' = (report \<or> Str ''REPORT'' \<in> set c)"
          by blast
        have "x # q = (x # c) @ rest" using c(1) by simp
        moreover have "evs' = events @ events_of (x # c)" using c(2) Str by simp
        moreover have "events_of (x # c) = take (nat left) (events_of (x # q))"
          using c(3) Str by simp
        moreover have "f' = (finish \<or> Str ''FINISHED'' \<in> set (x # c))"
          using c(4) Str fin by simp
        moreover have "r' = (report \<or> Str ''REPORT'' \<in> set (x # c))"
          using c(5) Str fin by simp
        ultimately show ?thesis by blast
      next
        case rep
        with True Str 2(5) have d: "drain left q events finish True = ((evs', f', r'), rest)"
          by simp
        from 2(2)[OF True Str rep d] obtain c where c: "q = c @ rest" "evs' = events @ events_of c"
          "events_of c = take (nat left) (events_of q)"
          "f' = (finish \<or> Str ''FINISHED'' \<in> set c)" "r' = (True \<or> Str ''REPORT'' \<in> set c)"
          by blast
        have "x # q = (x # c) @ rest" using c(1) by simp
        moreover have "evs' = events @ events_of (x # c)" using c(2) Str by simp
        moreover have "events_of (x # c) = take (nat left) (events_of (x # q))"
          using c(3) Str by simp
        moreover have "f' = (finish \<or> Str ''FINISHED'' \<in> set (x # c))"
          using c(4) Str rep by simp
        moreover have "r' = (report \<or> Str ''REPORT'' \<in> set (x # c))"
          using c(5) Str rep by simp
        ultimately show ?thesis by blast
      next
        case other
        with True Str 2(5) have d: "drain left q events finish report = ((evs', f', r'), rest)"
          by simp
        from 2(3)[OF True Str other d] obtain c where c: "q = c @ rest"
          "evs' = events @ events_of c"
          "events_of c = take (nat left) (events_of q)"
          "f' = (finish \<or> Str ''FINISHED'' \<in> set c)" "r' = (report \<or> Str ''REPORT'' \<in> set c)"
          by blast
        have "x # q = (x # c) @ rest" using c(1) by simp
        moreover have "evs' = events @ events_of (x # c)" using c(2) Str by simp
        moreover have "events_of (x # c) = take (nat left) (events_of (x # q))"
          using c(3) Str by simp
        moreover have "f' = (finish \<or> Str ''FINISHED'' \<in> set (x # c))"
          using c(4) Str other by simp
        moreover have "r' = (report \<or> Str ''REPORT'' \<in> set (x # c))"
          using c(5) Str other by simp
        ultimately show ?thesis by blast
      qed
    next
      case (Ev e)
      with True 2(5)
      have d: "drain (left - 1) q (events @ [e]) finish report = ((evs', f', r'), rest)"
        by simp
      from 2(4)[OF True Ev d] obtain c where c: "q = c @ rest"
        "evs' = (events @ [e]) @ events_of c"
        "events_of c = take (nat (left - 1)) (events_of q)"
        "f' = (finish \<or> Str ''FINISHED'' \<in> set c)" "r' = (report \<or> Str ''REPORT'' \<in> set c)"
        by blast
      have n: "nat left = Suc (nat (left - 1))" using True by simp
      have "x # q = (x # c) @ rest" using c(1) by simp
      moreover have "evs' = events @ events_of (x # c)" using c(2) Ev by simp
      moreover have "events_of (x # c) = take (nat left) (events_of (x # q))"
        using c(3) Ev n by simp
      moreover have "f' = (finish \<or> Str ''FINISHED'' \<in> set (x # c))" using c(4) Ev by simp
      moreover have "r' = (report \<or> Str ''REPORT'' \<in> set (x # c))" using c(5) Ev by simp
      ultimately show ?thesis by blast
    qed
  qed
qed

text \<open>
  C5. Whatever the state of the queue, \<^verbatim>\<open>events_waiting\<close> takes a prefix \<open>consumed\<close> off the
  queue and leaves the rest; the event list it returns is the events of that prefix, which
  are the first \<^verbatim>\<open>batch_size\<close> events of the queue however many tokens stand between them
  (tokens do not count against the budget), so it has at most \<^verbatim>\<open>batch_size\<close> entries; the
  flags say exactly whether a \<^verbatim>\<open>FINISHED\<close> and a \<^verbatim>\<open>REPORT\<close> token were in the prefix; and
  nothing but the queue changes.
\<close>

theorem events_waiting_batch:
  assumes "events_waiting m = ((events, finish, report), m')"
  shows "\<exists>consumed.
           queue_items m = consumed @ queue_items m'
         \<and> events = events_of consumed
         \<and> events = take (nat (batch_size m)) (events_of (queue_items m))
         \<and> int (length events) \<le> max 0 (batch_size m)
         \<and> finish = (Str ''FINISHED'' \<in> set consumed)
         \<and> report = (Str ''REPORT'' \<in> set consumed)
         \<and> m'\<lparr>us_event_queue := us_event_queue m\<rparr> = m"
proof (cases "batch_size m > 0")
  case False
  with assms have "events = []" "finish = False" "report = False" "m' = m"
    by (simp_all add: events_waiting_def)
  then show ?thesis using False by (intro exI[of _ "[]"]) simp
next
  case True
  show ?thesis
  proof (cases "us_event_queue m")
    case QNone
    with True assms have r: "events = []" "finish = False" "report = False"
      "m' = m\<lparr>us_event_queue := Queue []\<rparr>"
      by (simp_all add: events_waiting_def event_queue_def)
    then show ?thesis using QNone by (intro exI[of _ "[]"]) (simp add: queue_items_def)
  next
    case QFalse
    with True assms have r: "events = []" "finish = False" "report = False" "m' = m"
      by (simp_all add: events_waiting_def event_queue_def)
    then show ?thesis using QFalse by (intro exI[of _ "[]"]) (simp add: queue_items_def)
  next
    case (Queue q)
    obtain evs f r rest where d: "drain (batch_size m) q [] False False = ((evs, f, r), rest)"
      by (metis prod_cases3 surj_pair)
    with True Queue assms have r: "events = evs" "finish = f" "report = r"
      "m' = m\<lparr>us_event_queue := Queue rest\<rparr>"
      by (simp_all add: events_waiting_def event_queue_def)
    from drain_spec[OF d] obtain c where c: "q = c @ rest" "evs = [] @ events_of c"
      "events_of c = take (nat (batch_size m)) (events_of q)"
      "f = (False \<or> Str ''FINISHED'' \<in> set c)" "r = (False \<or> Str ''REPORT'' \<in> set c)"
      by blast
    have "queue_items m = c @ queue_items m'" using c(1) r(4) Queue by (simp add: queue_items_def)
    moreover have "events = events_of c" using c(2) r(1) by simp
    moreover have "events = take (nat (batch_size m)) (events_of (queue_items m))"
      using c(2,3) r(1) Queue by (simp add: queue_items_def)
    moreover have "int (length events) \<le> max 0 (batch_size m)"
      using c(2,3) r(1) True by simp
    moreover have "finish = (Str ''FINISHED'' \<in> set c)" using c(4) r(2) by simp
    moreover have "report = (Str ''REPORT'' \<in> set c)" using c(5) r(3) by simp
    moreover have "m'\<lparr>us_event_queue := us_event_queue m\<rparr> = m" using r(4) by simp
    ultimately show ?thesis by blast
  qed
qed

text \<open>
  At a queue of three events with a \<^verbatim>\<open>FINISHED\<close> token after the first and a \<^verbatim>\<open>REPORT\<close>
  token after the second, and \<^verbatim>\<open>batch_size\<close> 2.
\<close>

lemma events_waiting_batch_module:
  "events_waiting batch_module =
     (([sample_event ''A'' 0 ''p'', sample_event ''B'' 0 ''p''], True, False),
      batch_module\<lparr>us_event_queue := Queue [Str ''REPORT'', Ev (sample_event ''C'' 0 ''p'')]\<rparr>)"
  by (simp add: events_waiting_def event_queue_def batch_module_def init_def)

theorem events_waiting_batch_witness:
  "events_waiting batch_module =
     (([sample_event ''A'' 0 ''p'', sample_event ''B'' 0 ''p''], True, False),
      batch_module\<lparr>us_event_queue := Queue [Str ''REPORT'', Ev (sample_event ''C'' 0 ''p'')]\<rparr>)
   \<and> (\<exists>consumed.
         queue_items batch_module = consumed @ [Str ''REPORT'', Ev (sample_event ''C'' 0 ''p'')]
       \<and> [sample_event ''A'' 0 ''p'', sample_event ''B'' 0 ''p''] = events_of consumed
       \<and> Str ''FINISHED'' \<in> set consumed \<and> Str ''REPORT'' \<notin> set consumed)"
proof -
  from events_waiting_batch [OF events_waiting_batch_module]
  obtain c where "queue_items batch_module
        = c @ queue_items (batch_module\<lparr>us_event_queue :=
                 Queue [Str ''REPORT'', Ev (sample_event ''C'' 0 ''p'')]\<rparr>)"
    "[sample_event ''A'' 0 ''p'', sample_event ''B'' 0 ''p''] = events_of c"
    "True = (Str ''FINISHED'' \<in> set c)" "False = (Str ''REPORT'' \<in> set c)"
    by blast
  then have "queue_items batch_module = c @ [Str ''REPORT'', Ev (sample_event ''C'' 0 ''p'')]
    \<and> [sample_event ''A'' 0 ''p'', sample_event ''B'' 0 ''p''] = events_of c
    \<and> Str ''FINISHED'' \<in> set c \<and> Str ''REPORT'' \<notin> set c"
    by (simp add: queue_items_def)
  then show ?thesis using events_waiting_batch_module by blast
qed

subsection \<open>The handle-batch step and a token that arrives alone\<close>

text \<open>
  C1. With only a \<^verbatim>\<open>FINISHED\<close> token on the queue, a forced \<^verbatim>\<open>_handle_batch\<close> takes the
  token off the queue, gives nothing to the internal pool and returns \<^verbatim>\<open>False\<close>: the
  \<^verbatim>\<open>finish\<close> callback is not scheduled. The worker loop of a module with \<^verbatim>\<open>batch_size\<close> 1
  schedules it for the same token.
\<close>

theorem handle_batch_lone_token:
  "us_handle_batch True lone_token_module
     = (False, lone_token_module\<lparr>us_event_queue := Queue []\<rparr>)
   \<and> internal_pool (snd (us_handle_batch True lone_token_module)) = []
   \<and> internal_pool (worker_dispatch (Str ''FINISHED'') (init 1)) = [Callback Finish]"
  by (simp add: us_handle_batch_def num_queued_events_def events_waiting_def event_queue_def
      lone_token_module_def init_def worker_dispatch_def debug_def item_str_def)

subsection \<open>Cleanup\<close>

lemma foldl_catch_force:
  "foldl (\<lambda>s callback. if callable callback then catch_force callback s else s) m cbs
     = m\<lparr>catch_calls := catch_calls m @ forced_calls cbs\<rparr>"
  by (induction cbs arbitrary: m) (simp_all add: catch_force_def forced_calls_def)

lemma us_cleanup_first:
  "\<not> us_cleanedup m \<Longrightarrow>
   us_cleanup m = m\<lparr>us_cleanedup := True,
                     catch_calls := catch_calls m @ forced_calls (UserCleanup # cleanup_callbacks m)\<rparr>"
  by (simp add: us_cleanup_def foldl_catch_force Let_def del: foldl_Cons)

lemma us_cleanup_again: "us_cleanedup m \<Longrightarrow> us_cleanup m = m"
  by (simp add: us_cleanup_def)

lemma us_cleanup_cleanedup: "us_cleanedup (us_cleanup m)"
  by (cases "us_cleanedup m") (simp_all add: us_cleanup_first us_cleanup_again)

lemma us_cleanup_funpow: "(us_cleanup ^^ n) (us_cleanup m) = us_cleanup m"
  by (induction n) (simp_all add: us_cleanup_again us_cleanup_cleanedup)

text \<open>
  C9. On a module that has not been cleaned up, calling \<^verbatim>\<open>_cleanup\<close> \<open>N \<ge> 1\<close> times has the
  effect of calling it once, and the calls it makes are: the catch harness on the user's
  \<^verbatim>\<open>cleanup\<close>, then on each callable entry of \<^verbatim>\<open>cleanup_callbacks\<close> in list order, once
  each, every one with \<^verbatim>\<open>_force=True\<close>.
\<close>

theorem cleanup_runs_callbacks_once:
  assumes "\<not> us_cleanedup m" and "1 \<le> N"
  shows "(us_cleanup ^^ N) m = us_cleanup m
       \<and> catch_calls ((us_cleanup ^^ N) m)
           = catch_calls m @ Catch UserCleanup True
               # map (\<lambda>c. Catch c True) (filter callable (cleanup_callbacks m))"
proof -
  from assms(2) obtain n where N: "N = Suc n" by (cases N) auto
  have "(us_cleanup ^^ N) m = (us_cleanup ^^ n) (us_cleanup m)"
    unfolding N by (simp add: funpow_swap1)
  then have eq: "(us_cleanup ^^ N) m = us_cleanup m" by (simp add: us_cleanup_funpow)
  then show ?thesis using assms(1) by (simp add: us_cleanup_first forced_calls_def)
qed

theorem cleanup_runs_callbacks_once_witness:
  "\<not> us_cleanedup cleanup_module \<and> (1::nat) \<le> 3
   \<and> catch_calls ((us_cleanup ^^ 3) cleanup_module)
       = [Catch UserCleanup True, Catch (Callable ''a'') True, Catch (Callable ''b'') True]"
proof -
  have h: "\<not> us_cleanedup cleanup_module" by (simp add: cleanup_module_def init_def)
  have n: "(1::nat) \<le> 3" by simp
  from cleanup_runs_callbacks_once [OF h n]
  have c: "catch_calls ((us_cleanup ^^ 3) cleanup_module)
       = catch_calls cleanup_module @ Catch UserCleanup True
           # map (\<lambda>c. Catch c True) (filter callable (cleanup_callbacks cleanup_module))"
    by (rule conjunct2)
  have r: "catch_calls cleanup_module @ Catch UserCleanup True
           # map (\<lambda>c. Catch c True) (filter callable (cleanup_callbacks cleanup_module))
       = [Catch UserCleanup True, Catch (Callable ''a'') True, Catch (Callable ''b'') True]"
    by (simp add: cleanup_module_def init_def)
  from h n c r show ?thesis by (simp only:) simp
qed

subsection \<open>The error state\<close>

lemma set_error_state_fresh:
  "\<not> errored m \<Longrightarrow>
   errored (set_error_state message m) \<and> us_event_queue (set_error_state message m) = QFalse"
  by (cases message; cases "us_event_queue m")
     (simp_all add: set_error_state_def emptied_def error_def debug_def event_queue_def Let_def)

lemma get_all_nowait_empty: "get_all_nowait q = []"
  by (induction q) simp_all

lemma emptied_queue: "us_event_queue (emptied q m) = Queue []"
  by (simp add: emptied_def get_all_nowait_empty Let_def)


text \<open>
  On a module that was not in its error state and whose handle is not \<^verbatim>\<open>False\<close>,
  \<^verbatim>\<open>set_error_state\<close> empties the queue of the items that waited, then overwrites the handle.
\<close>

lemma set_error_state_drains:
  "\<not> errored m \<Longrightarrow> us_event_queue m \<noteq> QFalse \<Longrightarrow>
   set_error_state message m
     = (emptied (queue_items m) (marked_errored message m))\<lparr>us_event_queue := QFalse\<rparr>"
  by (cases message; cases "us_event_queue m")
     (simp_all add: set_error_state_def marked_errored_def queue_items_def error_def debug_def
        event_queue_def name_def Let_def)

lemma set_error_state_errored:
  "errored m \<Longrightarrow>
   set_error_state message m = (case message of None \<Rightarrow> m | Some s \<Rightarrow> error s m)"
  by (cases message) (simp_all add: set_error_state_def error_def)

lemma errored_set_error_state: "errored (set_error_state message m)"
  by (cases "errored m")
     (simp_all add: set_error_state_fresh set_error_state_errored error_def split: option.splits)







subsection \<open>The acceptance filter: scope distance\<close>

lemma max_scope_distance_Some:
  "scope_distance_modifier m = Some k \<Longrightarrow>
   max_scope_distance m
     = Inr (if in_scope_only m \<or> target_only m then 0 else max 0 (scope_search_distance m + k))"
  by (simp add: max_scope_distance_def)

lemma custom_filtering_accepted:
  "accepted (fst (custom_filtering m e)) = filter_passes m e"
  by (cases "user_filter_event m e")
     (simp_all add: custom_filtering_def accepted_def filter_passes_def)

lemma postcheck_reaches:
  "reaches_custom_filtering m e \<Longrightarrow> us_event_postcheck m (Ev e) = custom_filtering m e"
  by (cases "scope_distance_modifier m"; cases "max_scope_distance m")
     (auto simp add: reaches_custom_filtering_def us_event_postcheck_def)

lemma postcheck_not_reaches:
  "\<not> reaches_custom_filtering m e \<Longrightarrow> \<not> accepted (fst (us_event_postcheck m (Ev e)))"
  by (cases "scope_distance_modifier m"; cases "max_scope_distance m")
     (auto simp add: reaches_custom_filtering_def us_event_postcheck_def accepted_def)

text \<open>
  C3. With a modifier \<open>k\<close>, \<^verbatim>\<open>max_scope_distance\<close> is 0 when \<^verbatim>\<open>in_scope_only\<close> or
  \<^verbatim>\<open>target_only\<close> is set and \<open>max 0 (scope_search_distance + k)\<close> otherwise, and the
  post-check accepts an event exactly when its scope distance lies between 0 and that
  maximum and the user's filter lets it through; so it accepts only if
  \<open>0 \<le> scope_distance \<le> max_scope_distance\<close>. With the modifier \<^verbatim>\<open>None\<close> the two
  scope-distance tests are skipped: only the \<^verbatim>\<open>in_scope_only\<close> test and the user's filter
  decide. With \<^verbatim>\<open>in_scope_only\<close> set, an event of scope distance above 0 is rejected.
\<close>

theorem postcheck_scope_distance:
  "(scope_distance_modifier m = Some k \<longrightarrow>
      max_scope_distance m
        = Inr (if in_scope_only m \<or> target_only m then 0
               else max 0 (scope_search_distance m + k))
    \<and> accepted (fst (us_event_postcheck m (Ev e)))
        = (0 \<le> scope_distance e
           \<and> scope_distance e \<le> (if in_scope_only m \<or> target_only m then 0
                                 else max 0 (scope_search_distance m + k))
           \<and> filter_passes m e))
   \<and> (scope_distance_modifier m = None \<longrightarrow>
        us_event_postcheck m (Ev e)
          = (if in_scope_only m \<and> 0 < scope_distance e
             then (Inr (False, ''it did not meet in_scope_only filter criteria''), m)
             else custom_filtering m e))
   \<and> (in_scope_only m \<and> 0 < scope_distance e \<longrightarrow>
        us_event_postcheck m (Ev e)
          = (Inr (False, ''it did not meet in_scope_only filter criteria''), m))"
proof (intro conjI impI)
  assume k: "scope_distance_modifier m = Some k"
  show "max_scope_distance m
        = Inr (if in_scope_only m \<or> target_only m then 0
               else max 0 (scope_search_distance m + k))"
    by (rule max_scope_distance_Some [OF k])
  have r: "reaches_custom_filtering m e
      = (0 \<le> scope_distance e
         \<and> scope_distance e \<le> (if in_scope_only m \<or> target_only m then 0
                               else max 0 (scope_search_distance m + k)))"
    using k by (auto simp add: reaches_custom_filtering_def max_scope_distance_def)
  show "accepted (fst (us_event_postcheck m (Ev e)))
        = (0 \<le> scope_distance e
           \<and> scope_distance e \<le> (if in_scope_only m \<or> target_only m then 0
                                 else max 0 (scope_search_distance m + k))
           \<and> filter_passes m e)"
  proof (cases "reaches_custom_filtering m e")
    case True
    then have a: "accepted (fst (us_event_postcheck m (Ev e))) = filter_passes m e"
      by (simp add: postcheck_reaches custom_filtering_accepted)
    from True r a show ?thesis by blast
  next
    case False
    from False r postcheck_not_reaches [OF False] show ?thesis by blast
  qed
next
  assume "scope_distance_modifier m = None"
  then show "us_event_postcheck m (Ev e)
          = (if in_scope_only m \<and> 0 < scope_distance e
             then (Inr (False, ''it did not meet in_scope_only filter criteria''), m)
             else custom_filtering m e)"
    by (simp add: us_event_postcheck_def)
next
  assume "in_scope_only m \<and> 0 < scope_distance e"
  then show "us_event_postcheck m (Ev e)
          = (Inr (False, ''it did not meet in_scope_only filter criteria''), m)"
    by (simp add: us_event_postcheck_def)
qed

theorem postcheck_scope_distance_witness:
  "scope_distance_modifier s3_module = Some 0
   \<and> max_scope_distance s3_module = Inr 1
   \<and> accepted (fst (us_event_postcheck s3_module (Ev (sample_event ''A'' 0 ''p''))))
   \<and> accepted (fst (us_event_postcheck s3_module (Ev (sample_event ''A'' 1 ''p''))))
   \<and> \<not> accepted (fst (us_event_postcheck s3_module (Ev (sample_event ''A'' 2 ''p''))))
   \<and> scope_distance_modifier (s3_module\<lparr>scope_distance_modifier := None\<rparr>) = None
   \<and> accepted (fst (us_event_postcheck (s3_module\<lparr>scope_distance_modifier := None\<rparr>)
                      (Ev (sample_event ''A'' 2 ''p''))))
   \<and> in_scope_only (s3_module\<lparr>in_scope_only := True\<rparr>)
   \<and> \<not> accepted (fst (us_event_postcheck (s3_module\<lparr>in_scope_only := True\<rparr>)
                        (Ev (sample_event ''A'' 1 ''p''))))"
  using postcheck_scope_distance [of s3_module 0 "sample_event ''A'' 0 ''p''"]
    postcheck_scope_distance [of s3_module 0 "sample_event ''A'' 1 ''p''"]
    postcheck_scope_distance [of s3_module 0 "sample_event ''A'' 2 ''p''"]
    postcheck_scope_distance [of "s3_module\<lparr>scope_distance_modifier := None\<rparr>" 0
      "sample_event ''A'' 2 ''p''"]
    postcheck_scope_distance [of "s3_module\<lparr>in_scope_only := True\<rparr>" 0
      "sample_event ''A'' 1 ''p''"]
  by (simp add: s3_module_def init_def sample_event_def filter_passes_def accepted_def
      custom_filtering_def)

subsection \<open>The acceptance filter: the user's predicate\<close>

text \<open>
  C8, as the code has it. For an event that reaches the custom filtering of the
  post-check: if \<^verbatim>\<open>filter_event\<close> returns false the event is rejected; if it returns true
  the event is accepted; if it raises an instance of \<^verbatim>\<open>Exception\<close>, the error and the
  traceback are logged and the event is accepted as if it had returned true; an exception
  that is no instance of \<^verbatim>\<open>Exception\<close> leaves the post-check, and nothing is logged.
\<close>

theorem postcheck_custom_filter:
  assumes "reaches_custom_filtering m e"
  shows "(user_filter_event m e = Inr False \<longrightarrow>
            us_event_postcheck m (Ev e)
              = (Inr (False, estr e @ '' did not meet custom filter criteria''), m))
       \<and> (user_filter_event m e = Inr True \<longrightarrow>
            us_event_postcheck m (Ev e) = (Inr (True, ''''), m))
       \<and> (user_filter_event m e = Inl x \<and> is_Exception x \<longrightarrow>
            us_event_postcheck m (Ev e)
              = (Inr (True, ''''),
                 m\<lparr>log := log m
                     @ [Log ERROR (''Error in filter_event('' @ estr e @ ''): '' @ exn_str x),
                        Traceback]\<rparr>))
       \<and> (user_filter_event m e = Inl x \<and> \<not> is_Exception x \<longrightarrow>
            us_event_postcheck m (Ev e) = (Inl x, m))"
  by (simp add: postcheck_reaches [OF assms] custom_filtering_def error_def debug_traceback_def)

theorem postcheck_custom_filter_witness:
  "reaches_custom_filtering raising_filter_module (sample_event ''A'' 0 ''p'')
   \<and> user_filter_event raising_filter_module (sample_event ''A'' 0 ''p'')
       = Inl (Exn OtherException ''bad filter'')
   \<and> is_Exception (Exn OtherException ''bad filter'')
   \<and> us_event_postcheck raising_filter_module (Ev (sample_event ''A'' 0 ''p''))
       = (Inr (True, ''''),
          raising_filter_module
            \<lparr>log := [Log ERROR ''Error in filter_event(A): bad filter'', Traceback]\<rparr>)"
proof -
  have r: "reaches_custom_filtering raising_filter_module (sample_event ''A'' 0 ''p'')"
    by (simp add: reaches_custom_filtering_def raising_filter_module_def init_def
        sample_event_def max_scope_distance_def)
  from postcheck_custom_filter [OF r, of "Exn OtherException ''bad filter''"] r
  show ?thesis
    by (simp add: raising_filter_module_def init_def sample_event_def)
qed

text \<open>
  The sentence of the specification as written (any exception is logged and the event accepted) fails when
  \<^verbatim>\<open>filter_event\<close> raises a \<^verbatim>\<open>KeyboardInterrupt\<close>: the exception leaves the post-check, the
  event is not accepted and the log is untouched.
\<close>

theorem postcheck_custom_filter_counterexample:
  "reaches_custom_filtering interrupted_filter_module (sample_event ''A'' 0 ''p'')
   \<and> user_filter_event interrupted_filter_module (sample_event ''A'' 0 ''p'')
       = Inl (Exn KeyboardInterrupt '''')
   \<and> us_event_postcheck interrupted_filter_module (Ev (sample_event ''A'' 0 ''p''))
       = (Inl (Exn KeyboardInterrupt ''''), interrupted_filter_module)
   \<and> \<not> accepted (fst (us_event_postcheck interrupted_filter_module
                         (Ev (sample_event ''A'' 0 ''p''))))
   \<and> log (snd (us_event_postcheck interrupted_filter_module
                  (Ev (sample_event ''A'' 0 ''p'')))) = []"
  by (simp add: reaches_custom_filtering_def interrupted_filter_module_def init_def
      sample_event_def max_scope_distance_def us_event_postcheck_def custom_filtering_def
      accepted_def)

subsection \<open>The acceptance filter: the pre-check\<close>

text \<open>
  C6, as the code has it. The pre-check accepts the strings \<^verbatim>\<open>FINISHED\<close> and \<^verbatim>\<open>REPORT\<close>
  whatever the module; it rejects every other string \<open>s\<close>, the reason being the text
  \<^verbatim>\<open>string value "s" is invalid\<close>; it rejects, with the reason
  \<^verbatim>\<open>its type is not in watched_events\<close>, an event when neither \<open>*\<close> nor the event's type is in
  the set \<^verbatim>\<open>get_watched_events\<close> returns; and with \<^verbatim>\<open>target_only\<close> set it rejects every event
  whose tags do not contain \<open>target\<close>.
\<close>

theorem precheck_strings_types_target:
  "us_event_precheck m (Str ''FINISHED'') = ((True, ''''), m)
   \<and> us_event_precheck m (Str ''REPORT'') = ((True, ''''), m)
   \<and> (s \<noteq> ''FINISHED'' \<and> s \<noteq> ''REPORT'' \<longrightarrow>
        us_event_precheck m (Str s)
          = ((False, ''string value '' @ dquote @ s @ dquote @ '' is invalid''), m))
   \<and> (''*'' \<notin> fst (get_watched_events m) \<and> etype e \<notin> fst (get_watched_events m) \<longrightarrow>
        fst (us_event_precheck m (Ev e)) = (False, ''its type is not in watched_events''))
   \<and> (target_only m \<and> ''target'' \<notin> tags e \<longrightarrow> \<not> fst (fst (us_event_precheck m (Ev e))))"
  by (cases "us_watched_events m")
     (simp_all add: us_event_precheck_def get_watched_events_def Let_def)

theorem precheck_strings_types_target_witness:
  "''foo'' \<noteq> ''FINISHED'' \<and> ''foo'' \<noteq> ''REPORT''
   \<and> us_event_precheck (init 1) (Str ''foo'')
       = ((False, ''string value '' @ dquote @ ''foo'' @ dquote @ '' is invalid''), init 1)
   \<and> ''*'' \<notin> fst (get_watched_events s3_module)
   \<and> ''URL'' \<notin> fst (get_watched_events s3_module)
   \<and> fst (us_event_precheck s3_module (Ev (sample_event ''URL'' 0 ''p'')))
       = (False, ''its type is not in watched_events'')
   \<and> target_only (s3_module\<lparr>target_only := True\<rparr>)
   \<and> ''target'' \<notin> tags (sample_event ''A'' 0 ''p'')
   \<and> \<not> fst (fst (us_event_precheck (s3_module\<lparr>target_only := True\<rparr>)
                    (Ev (sample_event ''A'' 0 ''p''))))"
  using precheck_strings_types_target [of "init 1" "''foo''" "sample_event ''URL'' 0 ''p''"]
    precheck_strings_types_target [of s3_module "''foo''" "sample_event ''URL'' 0 ''p''"]
    precheck_strings_types_target [of "s3_module\<lparr>target_only := True\<rparr>" "''foo''"
      "sample_event ''A'' 0 ''p''"]
  by (simp add: s3_module_def init_def sample_event_def get_watched_events_def)

text \<open>
  The specification names the reason \<^verbatim>\<open>invalid string value\<close>; for the string \<open>foo\<close>
  the reason returned is \<^verbatim>\<open>string value "foo" is invalid\<close>.
\<close>

theorem precheck_string_reason_counterexample:
  "fst (us_event_precheck (init 1) (Str ''foo''))
     = (False, ''string value '' @ [CHR 0x22] @ ''foo'' @ [CHR 0x22] @ '' is invalid'')
   \<and> fst (us_event_precheck (init 1) (Str ''foo'')) \<noteq> (False, ''invalid string value'')"
  by (simp add: us_event_precheck_def dquote_def)

text \<open>
  C7, as the code has it. The pre-check rejects an event with the reason
  \<^verbatim>\<open>module consumes IP ranges directly\<close> exactly when the five conditions of the rule hold and
  neither earlier test has rejected the event: its type or \<open>*\<close> is in the watched set, and
  its tags contain \<open>target\<close> if \<^verbatim>\<open>target_only\<close> is set.
\<close>

theorem precheck_speculated_from_range:
  "(fst (us_event_precheck m (Ev e)) = (False, ''module consumes IP ranges directly''))
     = (speculated_from_range m e
        \<and> (''*'' \<in> fst (get_watched_events m) \<or> etype e \<in> fst (get_watched_events m))
        \<and> (target_only m \<longrightarrow> ''target'' \<in> tags e))"
  by (cases "us_watched_events m"; cases "source_type e"; cases "emodule e")
     (auto simp add: us_event_precheck_def get_watched_events_def Let_def
        speculated_from_range_def name_def)

theorem precheck_speculated_from_range_witness:
  "speculated_from_range scanner_module speculated_address
   \<and> etype speculated_address \<in> fst (get_watched_events scanner_module)
   \<and> \<not> target_only scanner_module
   \<and> fst (us_event_precheck scanner_module (Ev speculated_address))
       = (False, ''module consumes IP ranges directly'')
   \<and> fst (us_event_precheck scanner_module
            (Ev (speculated_address\<lparr>emodule := Some ''nmap''\<rparr>))) = (True, '''')"
  using precheck_speculated_from_range [of scanner_module speculated_address]
  by (simp add: scanner_module_def speculated_address_def init_def sample_event_def
      speculated_from_range_def name_def get_watched_events_def us_event_precheck_def)

text \<open>
  The sentence of the specification as written (rejected with that reason exactly when the five conditions hold)
  fails on a module with \<^verbatim>\<open>target_only\<close> set: the five conditions hold, and the event is
  rejected by the earlier \<^verbatim>\<open>target_only\<close> test, with its reason.
\<close>

theorem precheck_speculated_from_range_counterexample:
  "speculated_from_range (scanner_module\<lparr>target_only := True\<rparr>) speculated_address
   \<and> fst (us_event_precheck (scanner_module\<lparr>target_only := True\<rparr>) (Ev speculated_address))
       = (False, ''it did not meet target_only filter criteria'')
   \<and> fst (us_event_precheck (scanner_module\<lparr>target_only := True\<rparr>) (Ev speculated_address))
       \<noteq> (False, ''module consumes IP ranges directly'')"
  by (simp add: scanner_module_def speculated_address_def init_def sample_event_def
      speculated_from_range_def name_def get_watched_events_def us_event_precheck_def)

subsection \<open>Emission\<close>

lemma acquire_loop_skip:
  "(\<And>i. i < j \<Longrightarrow> \<not> stopping w (Suc (k + i)) \<and> \<not> acquire_semaphore w (k + i)) \<Longrightarrow>
   acquire_loop w k = acquire_loop w (k + j)"
proof (induction j arbitrary: k)
  case 0
  then show ?case by simp
next
  case (Suc j)
  have h0: "\<not> stopping w (Suc k) \<and> \<not> acquire_semaphore w k"
    using Suc.prems [of 0] by simp
  have step: "acquire_loop w k = acquire_loop w (Suc k)"
    by (subst acquire_loop.simps) (simp add: h0)
  have "acquire_loop w (Suc k) = acquire_loop w (Suc k + j)"
  proof (rule Suc.IH)
    fix i assume "i < j"
    then show "\<not> stopping w (Suc (Suc k + i)) \<and> \<not> acquire_semaphore w (Suc k + i)"
      using Suc.prems [of "Suc i"] by simp
  qed
  with step show ?case by simp
qed

text \<open>
  The loop returns with a permit when, after \<open>j\<close> rounds that neither saw the scan stopping
  nor got a permit, round \<open>j\<close> gets one.
\<close>

lemma acquire_loop_acquires:
  assumes "\<And>i. i < j \<Longrightarrow> \<not> stopping w (Suc i) \<and> \<not> acquire_semaphore w i"
    and "\<not> stopping w (Suc j)" and "acquire_semaphore w j"
  shows "acquire_loop w 0 = Some True"
proof -
  have "acquire_loop w 0 = acquire_loop w (0 + j)"
    by (rule acquire_loop_skip) (simp add: assms(1))
  also have "\<dots> = Some True"
    by (subst acquire_loop.simps) (simp add: assms(2,3))
  finally show ?thesis .
qed

lemma make_event_made:
  "scan_make_event w = Inr ev \<Longrightarrow> make_event w raise_error m = (Inr (Some (made_by m ev)), m)"
  by (simp add: make_event_def made_by_def)

text \<open>
  C4, as the code has it. If the scan is stopping at entry, \<^verbatim>\<open>emit_event\<close> returns and the
  module is unchanged: no event is made, no permit acquired. If it is not, the factory made
  an event and the loop ended with a permit acquired, the orchestrator's \<^verbatim>\<open>emit_event\<close> is
  called with the event; when that call returns, the gate shows the acquisition and no
  release; when it raises an instance of \<^verbatim>\<open>Exception\<close>, the permit is released and an error
  is logged; when it raises anything else, the exception leaves \<^verbatim>\<open>emit_event\<close> with the
  permit still held and nothing logged. If the loop ended because the scan was stopping, no
  permit is held and the orchestrator is not called.
\<close>

theorem emit_event_gate_protocol:
  "(stopping w 0 \<longrightarrow> emit_event w raise_error m = Some (None, m))
   \<and> (\<not> stopping w 0 \<and> scan_make_event w = Inr ev \<and> acquire_loop w 0 = Some False \<longrightarrow>
        emit_event w raise_error m = Some (None, m))
   \<and> (\<not> stopping w 0 \<and> scan_make_event w = Inr ev \<and> acquire_loop w 0 = Some True \<longrightarrow>
        (manager_emit_event w = None \<longrightarrow>
           emit_event w raise_error m
             = Some (None, m\<lparr>gate := gate m @ [Acquire],
                             manager_emitted := manager_emitted m @ [made_by m ev]\<rparr>))
      \<and> (manager_emit_event w = Some x \<and> is_Exception x \<longrightarrow>
           emit_event w raise_error m
             = Some (None, m\<lparr>gate := gate m @ [Acquire, Release],
                             manager_emitted := manager_emitted m @ [made_by m ev],
                             log := log m
                               @ [Log ERROR (''Unexpected error in '' @ name m
                                             @ ''.emit_event()''),
                                  Traceback]\<rparr>))
      \<and> (manager_emit_event w = Some x \<and> \<not> is_Exception x \<longrightarrow>
           emit_event w raise_error m
             = Some (Some x, m\<lparr>gate := gate m @ [Acquire],
                               manager_emitted := manager_emitted m @ [made_by m ev]\<rparr>)))"
  by (simp add: emit_event_def make_event_made error_def debug_traceback_def name_def)

lemma busy_gate_world_acquires: "acquire_loop (busy_gate_world ev r) 0 = Some True"
proof (rule acquire_loop_acquires [where j = 2])
  fix i :: nat assume "i < 2"
  then show "\<not> stopping (busy_gate_world ev r) (Suc i)
      \<and> \<not> acquire_semaphore (busy_gate_world ev r) i"
    by (simp add: busy_gate_world_def)
qed (simp_all add: busy_gate_world_def)

theorem emit_event_gate_protocol_witness:
  "\<not> stopping (busy_gate_world (sample_event ''A'' 0 ''base'') None) 0
   \<and> acquire_loop (busy_gate_world (sample_event ''A'' 0 ''base'') None) 0 = Some True
   \<and> emit_event (busy_gate_world (sample_event ''A'' 0 ''base'') None) False (init 1)
       = Some (None, (init 1)\<lparr>gate := [Acquire],
                               manager_emitted := [sample_event ''A'' 0 ''base'']\<rparr>)
   \<and> is_Exception (Exn OtherException ''down'')
   \<and> emit_event (busy_gate_world (sample_event ''A'' 0 ''base'')
                   (Some (Exn OtherException ''down''))) False (init 1)
       = Some (None, (init 1)\<lparr>gate := [Acquire, Release],
                               manager_emitted := [sample_event ''A'' 0 ''base''],
                               log := [Log ERROR ''Unexpected error in base.emit_event()'',
                                       Traceback]\<rparr>)
   \<and> emit_event ((busy_gate_world (sample_event ''A'' 0 ''base'') None)
                    \<lparr>stopping := (\<lambda>k. True)\<rparr>) False (init 1)
       = Some (None, init 1)"
  using emit_event_gate_protocol [of "busy_gate_world (sample_event ''A'' 0 ''base'') None"
      False "init 1" "sample_event ''A'' 0 ''base''" "Exn OtherException ''down''"]
    emit_event_gate_protocol [of "busy_gate_world (sample_event ''A'' 0 ''base'')
        (Some (Exn OtherException ''down''))"
      False "init 1" "sample_event ''A'' 0 ''base''" "Exn OtherException ''down''"]
    emit_event_gate_protocol [of "(busy_gate_world (sample_event ''A'' 0 ''base'') None)
        \<lparr>stopping := (\<lambda>k. True)\<rparr>"
      False "init 1" "sample_event ''A'' 0 ''base''" "Exn OtherException ''down''"]
    busy_gate_world_acquires [of "sample_event ''A'' 0 ''base''" None]
    busy_gate_world_acquires [of "sample_event ''A'' 0 ''base''"
      "Some (Exn OtherException ''down'')"]
  by (simp add: busy_gate_world_def init_def sample_event_def made_by_def name_def)

text \<open>
  The sentence of the specification as written (if the call raises, the permit is released and an error logged)
  fails when the orchestrator's \<^verbatim>\<open>emit_event\<close> raises a \<^verbatim>\<open>KeyboardInterrupt\<close>: the exception
  leaves \<^verbatim>\<open>emit_event\<close>, the gate shows the acquisition and no release, and the log is empty.
\<close>

theorem emit_event_gate_protocol_counterexample:
  "acquire_loop (busy_gate_world (sample_event ''A'' 0 ''base'')
                   (Some (Exn KeyboardInterrupt ''''))) 0 = Some True
   \<and> emit_event (busy_gate_world (sample_event ''A'' 0 ''base'')
                   (Some (Exn KeyboardInterrupt ''''))) False (init 1)
       = Some (Some (Exn KeyboardInterrupt ''''),
               (init 1)\<lparr>gate := [Acquire],
                         manager_emitted := [sample_event ''A'' 0 ''base'']\<rparr>)
   \<and> log ((init 1)\<lparr>gate := [Acquire],
                     manager_emitted := [sample_event ''A'' 0 ''base'']\<rparr>) = []"
  using busy_gate_world_acquires [of "sample_event ''A'' 0 ''base''"
      "Some (Exn KeyboardInterrupt '''')"]
  by (simp add: emit_event_def make_event_def busy_gate_world_def init_def sample_event_def)

subsection \<open>Setup\<close>

lemma debug_frame:
  "user_setup (debug s m) = user_setup m" "errored (debug s m) = errored m"
  "us_event_queue (debug s m) = us_event_queue m"
  by (simp_all add: debug_def)

lemma setup_except_caught:
  "is_Exception x \<Longrightarrow>
   setup_except x st m
     = (Inr (if is_WordlistError x then SNone else st, exn_str x),
        debug_traceback (set_error_state None m))"
  by (simp add: setup_except_def Let_def)

text \<open>
  C10, as the code has it. When the user's \<^verbatim>\<open>setup()\<close> raises an instance of
  \<^verbatim>\<open>Exception\<close>, a \<^verbatim>\<open>WordlistError\<close> included, \<^verbatim>\<open>_setup\<close> calls \<^verbatim>\<open>set_error_state()\<close>, so the
  module is in its error state and, if it was not before, its queue is disarmed, after
  every waiting item was taken off it; the status returned is \<^verbatim>\<open>None\<close> for a
  \<^verbatim>\<open>WordlistError\<close> and \<^verbatim>\<open>False\<close> otherwise, the message the text of the exception.
  \<^verbatim>\<open>_setup\<close> returns a pair of status and message unless \<^verbatim>\<open>setup()\<close> raises an exception
  that is no instance of \<^verbatim>\<open>Exception\<close>; such an exception leaves \<^verbatim>\<open>_setup\<close>, and the module
  is as it was but for the first debug line: \<^verbatim>\<open>set_error_state\<close> is not called, \<^verbatim>\<open>errored\<close>
  and the queue are unchanged.
\<close>

theorem setup_exception_enters_error_state:
  "(user_setup m = Raise x \<and> is_Exception x \<longrightarrow>
      us_setup m
        = (Inr (if is_WordlistError x then SNone else SBool False, exn_str x),
           debug_traceback
             (set_error_state None (debug (''Setting up module '' @ name m) m)))
    \<and> errored (snd (us_setup m))
    \<and> (\<not> errored m \<longrightarrow> us_event_queue (snd (us_setup m)) = QFalse)
    \<and> (\<not> errored m \<and> us_event_queue m \<noteq> QFalse \<longrightarrow>
         snd (us_setup m)
           = debug_traceback
               ((emptied (queue_items m)
                   (marked_errored None (debug (''Setting up module '' @ name m) m)))
                  \<lparr>us_event_queue := QFalse\<rparr>)
       \<and> us_event_queue
            (emptied (queue_items m)
               (marked_errored None (debug (''Setting up module '' @ name m) m)))
           = Queue []))
   \<and> (\<not> setup_escapes m \<longrightarrow> (\<exists>st msg. fst (us_setup m) = Inr (st, msg)))
   \<and> (user_setup m = Raise x \<and> \<not> is_Exception x \<longrightarrow>
        fst (us_setup m) = Inl x
      \<and> us_setup m = (Inl x, debug (''Setting up module '' @ name m) m)
      \<and> errored (snd (us_setup m)) = errored m
      \<and> us_event_queue (snd (us_setup m)) = us_event_queue m
      \<and> log (snd (us_setup m)) = log m @ [Log DEBUG (''Setting up module '' @ name m)])"
proof -
  let ?m1 = "debug (''Setting up module '' @ name m) m"
  have caught: "us_setup m
        = (Inr (if is_WordlistError x then SNone else SBool False, exn_str x),
           debug_traceback (set_error_state None ?m1))
      \<and> errored (snd (us_setup m))
      \<and> (\<not> errored m \<longrightarrow> us_event_queue (snd (us_setup m)) = QFalse)
      \<and> (\<not> errored m \<and> us_event_queue m \<noteq> QFalse \<longrightarrow>
           snd (us_setup m)
             = debug_traceback
                 ((emptied (queue_items m) (marked_errored None ?m1))
                    \<lparr>us_event_queue := QFalse\<rparr>)
         \<and> us_event_queue (emptied (queue_items m) (marked_errored None ?m1)) = Queue [])"
    if a: "user_setup m = Raise x \<and> is_Exception x"
  proof -
    have eq: "us_setup m
        = (Inr (if is_WordlistError x then SNone else SBool False, exn_str x),
           debug_traceback (set_error_state None ?m1))"
      using a by (simp add: us_setup_def Let_def debug_frame setup_except_caught)
    have e: "errored (snd (us_setup m))"
      by (simp add: eq debug_traceback_def errored_set_error_state)
    have q: "us_event_queue (snd (us_setup m)) = QFalse" if "\<not> errored m"
    proof -
      from that have "\<not> errored ?m1" by (simp add: debug_frame)
      from set_error_state_fresh [OF this, of None] show ?thesis
        by (simp add: eq debug_traceback_def)
    qed
    have dr: "snd (us_setup m)
             = debug_traceback
                 ((emptied (queue_items m) (marked_errored None ?m1))
                    \<lparr>us_event_queue := QFalse\<rparr>)
         \<and> us_event_queue (emptied (queue_items m) (marked_errored None ?m1)) = Queue []"
      if f: "\<not> errored m \<and> us_event_queue m \<noteq> QFalse"
    proof -
      from f have f1: "\<not> errored ?m1" and f2: "us_event_queue ?m1 \<noteq> QFalse"
        by (simp_all add: debug_frame)
      have qi: "queue_items ?m1 = queue_items m"
        by (simp add: queue_items_def debug_frame)
      from set_error_state_drains [OF f1 f2, of None]
      have "set_error_state None ?m1
          = (emptied (queue_items m) (marked_errored None ?m1))\<lparr>us_event_queue := QFalse\<rparr>"
        by (simp only: qi)
      then have "snd (us_setup m)
             = debug_traceback
                 ((emptied (queue_items m) (marked_errored None ?m1))
                    \<lparr>us_event_queue := QFalse\<rparr>)"
        by (simp add: eq)
      then show ?thesis using emptied_queue by blast
    qed
    from eq e q dr show ?thesis by blast
  qed
  have returns: "\<exists>st msg. fst (us_setup m) = Inr (st, msg)" if n: "\<not> setup_escapes m"
  proof (cases "user_setup m")
    case (Ret st)
    then show ?thesis
      by (cases st)
         (simp_all add: us_setup_def Let_def debug_frame setup_except_caught split: bool.splits)
  next
    case (RetPair st msg)
    then show ?thesis by (simp add: us_setup_def Let_def debug_frame)
  next
    case (Raise y)
    with n have "is_Exception y" by (simp add: setup_escapes_def)
    with Raise show ?thesis by (simp add: us_setup_def Let_def debug_frame setup_except_caught)
  qed
  have escapes: "fst (us_setup m) = Inl x
      \<and> us_setup m = (Inl x, ?m1)
      \<and> errored (snd (us_setup m)) = errored m
      \<and> us_event_queue (snd (us_setup m)) = us_event_queue m
      \<and> log (snd (us_setup m)) = log m @ [Log DEBUG (''Setting up module '' @ name m)]"
    if b: "user_setup m = Raise x \<and> \<not> is_Exception x"
  proof -
    have eq: "us_setup m = (Inl x, ?m1)"
      using b by (simp add: us_setup_def Let_def debug_frame setup_except_def)
    have l: "log ?m1 = log m @ [Log DEBUG (''Setting up module '' @ name m)]"
      by (simp add: debug_def)
    from eq l show ?thesis by (simp add: debug_frame)
  qed
  from caught returns escapes show ?thesis by blast
qed

theorem setup_exception_enters_error_state_witness:
  "user_setup (busy_module\<lparr>user_setup := Raise (Exn WordlistError ''no wordlist'')\<rparr>)
     = Raise (Exn WordlistError ''no wordlist'')
   \<and> is_Exception (Exn WordlistError ''no wordlist'')
   \<and> \<not> errored (busy_module\<lparr>user_setup := Raise (Exn WordlistError ''no wordlist'')\<rparr>)
   \<and> us_event_queue (busy_module\<lparr>user_setup := Raise (Exn WordlistError ''no wordlist'')\<rparr>)
       \<noteq> QFalse
   \<and> \<not> setup_escapes (busy_module\<lparr>user_setup := Raise (Exn WordlistError ''no wordlist'')\<rparr>)
   \<and> fst (us_setup (busy_module\<lparr>user_setup := Raise (Exn WordlistError ''no wordlist'')\<rparr>))
       = Inr (SNone, ''no wordlist'')
   \<and> errored (snd (us_setup
                (busy_module\<lparr>user_setup := Raise (Exn WordlistError ''no wordlist'')\<rparr>)))
   \<and> us_event_queue (snd (us_setup
                (busy_module\<lparr>user_setup := Raise (Exn WordlistError ''no wordlist'')\<rparr>)))
       = QFalse
   \<and> user_setup (busy_module\<lparr>user_setup := Raise (Exn SystemExit ''1'')\<rparr>)
       = Raise (Exn SystemExit ''1'')
   \<and> \<not> is_Exception (Exn SystemExit ''1'')
   \<and> fst (us_setup (busy_module\<lparr>user_setup := Raise (Exn SystemExit ''1'')\<rparr>))
       = Inl (Exn SystemExit ''1'')
   \<and> \<not> errored (snd (us_setup (busy_module\<lparr>user_setup := Raise (Exn SystemExit ''1'')\<rparr>)))"
proof -
  let ?m = "busy_module\<lparr>user_setup := Raise (Exn WordlistError ''no wordlist'')\<rparr>"
  let ?k = "busy_module\<lparr>user_setup := Raise (Exn SystemExit ''1'')\<rparr>"
  have h: "user_setup ?m = Raise (Exn WordlistError ''no wordlist'')
      \<and> is_Exception (Exn WordlistError ''no wordlist'')"
    by simp
  have f: "\<not> errored ?m" "us_event_queue ?m \<noteq> QFalse"
    by (simp_all add: busy_module_def init_def)
  have n: "\<not> setup_escapes ?m" by (simp add: setup_escapes_def)
  note t = setup_exception_enters_error_state [of ?m "Exn WordlistError ''no wordlist''"]
  from t h have eq: "us_setup ?m
      = (Inr (if is_WordlistError (Exn WordlistError ''no wordlist'') then SNone
              else SBool False, exn_str (Exn WordlistError ''no wordlist'')),
         debug_traceback (set_error_state None (debug (''Setting up module '' @ name ?m) ?m)))"
    by blast
  from t h have e: "errored (snd (us_setup ?m))" by blast
  from t h f have q: "us_event_queue (snd (us_setup ?m)) = QFalse" by blast
  from eq have r: "fst (us_setup ?m) = Inr (SNone, ''no wordlist'')" by simp
  have hk: "user_setup ?k = Raise (Exn SystemExit ''1'') \<and> \<not> is_Exception (Exn SystemExit ''1'')"
    by simp
  have fk: "\<not> errored ?k" by (simp add: busy_module_def init_def)
  note u = setup_exception_enters_error_state [of ?k "Exn SystemExit ''1''"]
  from u hk have k1: "fst (us_setup ?k) = Inl (Exn SystemExit ''1'')" by blast
  from u hk have "errored (snd (us_setup ?k)) = errored ?k" by blast
  with fk have k2: "\<not> errored (snd (us_setup ?k))" by simp
  from h f n r e q hk k1 k2 show ?thesis by blast
qed

text \<open>
  The sentence of the specification as written (every exception puts the module into its error state, and
  \<^verbatim>\<open>_setup\<close> never propagates and always returns a pair) fails when \<^verbatim>\<open>setup()\<close> raises a
  \<^verbatim>\<open>SystemExit\<close>: the exception leaves \<^verbatim>\<open>_setup\<close> and the module is not in its error state.
\<close>

theorem setup_exception_enters_error_state_counterexample:
  "fst (us_setup ((init 1)\<lparr>user_setup := Raise (Exn SystemExit ''1'')\<rparr>))
     = Inl (Exn SystemExit ''1'')
   \<and> \<not> errored (snd (us_setup ((init 1)\<lparr>user_setup := Raise (Exn SystemExit ''1'')\<rparr>)))
   \<and> us_event_queue (snd (us_setup ((init 1)\<lparr>user_setup := Raise (Exn SystemExit ''1'')\<rparr>)))
       = QNone"
  by (simp add: us_setup_def setup_except_def init_def debug_def Let_def)

end
